theory Spec2Isabelle
  imports Main "HOL-Library.Sublist"
begin

section \<open>The client's data model\<close>

text \<open>
  The \<^verbatim>\<open>Shift\<close> interface of the client, as the dashboard reads it. The records arrive
  as JSON, so a field may be absent: \<^verbatim>\<open>_id\<close> is declared optional, and the dashboard
  reads the three membership arrays through \<^verbatim>\<open>?.\<close> or behind a guard, so each of them
  is an optional list here (\<open>None\<close> is JavaScript's \<^verbatim>\<open>undefined\<close>). The field
  \<^verbatim>\<open>_id\<close> is called \<open>ident\<close>, since a name cannot start with an underscore.
\<close>

record Shift =
  ident :: "string option"
  title :: string
  start_time :: string
  end_time :: string
  assigned_employees :: "string list option"
  pending_employees :: "string list option"
  drop_requests :: "string list option"

text \<open>
  The parsed socket message. The handler dispatches on \<^verbatim>\<open>payload.action\<close> and reads
  \<^verbatim>\<open>payload.shift\<close> for the first two actions and \<^verbatim>\<open>payload.shift_id\<close> for the third;
  a message with any other action falls through every branch.
\<close>

datatype payload =
    NEW_SHIFT Shift
  | UPDATE_SHIFT Shift
  | DELETE_SHIFT "string option"
  | OTHER_ACTION string

section \<open>The projection: \<^verbatim>\<open>ws.onmessage\<close>\<close>

text \<open>
  The state update of \<^verbatim>\<open>ws.onmessage\<close> (Dashboard.tsx, lines 40 to 52): each branch
  calls \<^verbatim>\<open>setShifts\<close> with a function of the previous list.
  \<^item> \<^verbatim>\<open>[...prev, payload.shift]\<close>
  \<^item> \<^verbatim>\<open>prev.map(s => s._id === payload.shift._id ? payload.shift : s)\<close>
  \<^item> \<^verbatim>\<open>prev.filter(s => s._id !== payload.shift_id)\<close>
\<close>

fun ws_onmessage :: "payload \<Rightarrow> Shift list \<Rightarrow> Shift list" where
  "ws_onmessage (NEW_SHIFT sh) prev = prev @ [sh]"
| "ws_onmessage (UPDATE_SHIFT sh) prev = map (\<lambda>s. if ident s = ident sh then sh else s) prev"
| "ws_onmessage (DELETE_SHIFT shift_id) prev = filter (\<lambda>s. ident s \<noteq> shift_id) prev"
| "ws_onmessage (OTHER_ACTION a) prev = prev"

text \<open>
  The notifications the handler raises beside the state update. \<open>role\<close> is the role
  decoded from the token, \<open>None\<close> when there is no token. (The icon of the first toast is
  left out.)
\<close>

datatype toast = Toast string | ToastError string

fun ws_onmessage_toasts :: "string option \<Rightarrow> payload \<Rightarrow> toast list" where
  "ws_onmessage_toasts role (NEW_SHIFT sh) =
     (if role \<noteq> Some ''manager'' then [Toast ''New shift published!''] else [])"
| "ws_onmessage_toasts role (UPDATE_SHIFT sh) = []"
| "ws_onmessage_toasts role (DELETE_SHIFT shift_id) = [ToastError ''A shift was removed by a manager'']"
| "ws_onmessage_toasts role (OTHER_ACTION a) = []"

text \<open>How many held shifts carry a given id.\<close>

definition held :: "string option \<Rightarrow> Shift list \<Rightarrow> nat" where
  "held i shifts = length (filter (\<lambda>s. ident s = i) shifts)"

section \<open>What the component can throw\<close>

text \<open>
  Three exceptions can leave the component: the TypeError of reading a property of
  \<^verbatim>\<open>undefined\<close>, the InvalidTokenError of \<^verbatim>\<open>jwtDecode\<close> on a string that is not a
  token, and the RangeError of \<^verbatim>\<open>format\<close> on an invalid date. A computation that may
  throw returns a sum, and \<open>bind_err\<close> runs the next step unless the last one threw.
\<close>

datatype js_error = TypeError | InvalidTokenError | RangeError

definition bind_err :: "js_error + 'a \<Rightarrow> ('a \<Rightarrow> js_error + 'b) \<Rightarrow> js_error + 'b" where
  "bind_err r f = (case r of Inl e \<Rightarrow> Inl e | Inr v \<Rightarrow> f v)"

section \<open>Connection setup: the \<^verbatim>\<open>useEffect\<close> of the dashboard\<close>

text \<open>
  Before the hook can run, the component's body reads the token and decodes it twice
  (lines 20 to 22):
  \<^verbatim>\<open>role = token ? jwtDecode(token).role : null\<close> and the same for \<^verbatim>\<open>username\<close>.
  \<^verbatim>\<open>jwtDecode\<close> is the library's and is a parameter here: it gives the token's payload,
  or \<open>None\<close> where the library throws. A falsy token (\<^verbatim>\<open>null\<close> or the empty string)
  is not decoded.
\<close>

record jwt_payload =
  jwt_role :: "string option"
  jwt_username :: "string option"

definition decode_claim ::
  "(string \<Rightarrow> jwt_payload option) \<Rightarrow> (jwt_payload \<Rightarrow> string option) \<Rightarrow> string option
     \<Rightarrow> js_error + string option" where
  "decode_claim jwtDecode field token =
     (case token of
        None \<Rightarrow> Inr None
      | Some t \<Rightarrow>
          if t = [] then Inr None
          else (case jwtDecode t of None \<Rightarrow> Inl InvalidTokenError | Some c \<Rightarrow> Inr (field c)))"

definition render_identity ::
  "(string \<Rightarrow> jwt_payload option) \<Rightarrow> string option
     \<Rightarrow> js_error + (string option \<times> string option)" where
  "render_identity jwtDecode token =
     bind_err (decode_claim jwtDecode jwt_role token) (\<lambda>role.
     bind_err (decode_claim jwtDecode jwt_username token) (\<lambda>username.
       Inr (role, username)))"

text \<open>
  The effects the hook issues when the component mounts, in the order of its statements
  (lines 24 to 61). The hook runs after the first render, which shows no card yet, so it
  runs only when the decoding above did not throw. Without a token (\<^verbatim>\<open>!token\<close>) it
  navigates to the login page and returns; otherwise it first issues the GET of the
  whole collection and then opens the socket.
\<close>

datatype effect = Navigate string | HttpGet string | WsOpen string

definition useEffect_setup ::
  "(string \<Rightarrow> jwt_payload option) \<Rightarrow> string option \<Rightarrow> js_error + effect list" where
  "useEffect_setup jwtDecode token =
     bind_err (render_identity jwtDecode token) (\<lambda>identity.
       Inr (if token = None \<or> token = Some [] then [Navigate ''/login'']
            else [HttpGet ''http://localhost:8000/shifts/'', WsOpen ''ws://localhost:8000/ws'']))"

text \<open>
  What reaches the projection after the setup: the response of the GET, whose handler is
  \<^verbatim>\<open>res => setShifts(res.data)\<close>, and the socket's messages. The two arrive in any order.
\<close>

datatype client_event = SnapshotResponse "Shift list" | WsMessage payload

fun client_step :: "client_event \<Rightarrow> Shift list \<Rightarrow> Shift list" where
  "client_step (SnapshotResponse data) prev = data"
| "client_step (WsMessage p) prev = ws_onmessage p prev"

definition client_run :: "client_event list \<Rightarrow> Shift list \<Rightarrow> Shift list" where
  "client_run evs st = fold client_step evs st"

section \<open>Rendering a shift card\<close>

text \<open>
  Reading a property of \<^verbatim>\<open>undefined\<close> throws a TypeError. \<open>get_includes\<close> and
  \<open>get_length\<close> are the plain accesses \<^verbatim>\<open>a.includes(x)\<close> and \<^verbatim>\<open>a.length\<close>;
  \<open>opt_includes\<close> is \<^verbatim>\<open>a?.includes(x)\<close>, which is \<^verbatim>\<open>undefined\<close> when \<^verbatim>\<open>a\<close> is, and
  the plain call otherwise.
\<close>

definition get_includes :: "string list option \<Rightarrow> string \<Rightarrow> js_error + bool" where
  "get_includes a x = (case a of None \<Rightarrow> Inl TypeError | Some l \<Rightarrow> Inr (x \<in> set l))"

definition get_length :: "string list option \<Rightarrow> js_error + nat" where
  "get_length a = (case a of None \<Rightarrow> Inl TypeError | Some l \<Rightarrow> Inr (length l))"

definition opt_includes :: "string list option \<Rightarrow> string \<Rightarrow> js_error + bool option" where
  "opt_includes a x =
     (if a = None then Inr None
      else (case get_includes a x of Inl e \<Rightarrow> Inl e | Inr b \<Rightarrow> Inr (Some b)))"

text \<open>\<^verbatim>\<open>username || ''\<close>: \<^verbatim>\<open>null\<close> and the empty string both give the empty string.\<close>

definition or_empty :: "string option \<Rightarrow> string" where
  "or_empty username = (case username of None \<Rightarrow> [] | Some u \<Rightarrow> u)"

text \<open>The three membership checks of lines 224 to 226.\<close>

definition isAssignedToMe :: "string option \<Rightarrow> Shift \<Rightarrow> js_error + bool option" where
  "isAssignedToMe username shift = opt_includes (assigned_employees shift) (or_empty username)"

definition isPendingForMe :: "string option \<Rightarrow> Shift \<Rightarrow> js_error + bool option" where
  "isPendingForMe username shift = opt_includes (pending_employees shift) (or_empty username)"

definition isDropRequested :: "string option \<Rightarrow> Shift \<Rightarrow> js_error + bool option" where
  "isDropRequested username shift = opt_includes (drop_requests shift) (or_empty username)"

text \<open>JavaScript's truthiness of a check's value: only \<^verbatim>\<open>true\<close> is truthy.\<close>

definition truthy :: "bool option \<Rightarrow> bool" where
  "truthy b = (b = Some True)"

text \<open>
  What the card shows of the membership fields: the colour of its stripe (line 230), the
  names of the roster (line 249), the label \<^verbatim>\<open>Unassigned\<close> (line 250) and, for an
  employee, one of four buttons (lines 290 to 303). Between the stripe and the roster
  the card formats the start time (twice) and the end time, and shows nothing when one
  of them throws.
\<close>

datatype button = DropPendingApproval | RequestToDrop | CancelClaimRequest | RequestShift

record card =
  stripe :: string
  roster :: "string list"
  unassigned :: bool
  employee_button :: "button option"

text \<open>
  \<^verbatim>\<open>format(new Date(s), pattern)\<close> of lines 243 and 244: the library throws a RangeError
  when the string does not parse to a valid date. Which strings parse is the engine's
  matter and a parameter here (\<open>parses\<close>); the formatted text is not part of the card
  below.
\<close>

definition format_date :: "(string \<Rightarrow> bool) \<Rightarrow> string \<Rightarrow> js_error + unit" where
  "format_date parses s = (if parses s then Inr () else Inl RangeError)"

text \<open>\<^verbatim>\<open>!shift.assigned_employees || shift.assigned_employees.length === 0\<close>\<close>

definition unassigned_label :: "Shift \<Rightarrow> js_error + bool" where
  "unassigned_label shift =
     (if assigned_employees shift = None then Inr True
      else bind_err (get_length (assigned_employees shift)) (\<lambda>n. Inr (n = 0)))"

text \<open>\<^verbatim>\<open>shift.assigned_employees?.map(...)\<close>: nothing is rendered for \<^verbatim>\<open>undefined\<close>.\<close>

definition roster_names :: "Shift \<Rightarrow> string list" where
  "roster_names shift = (case assigned_employees shift of None \<Rightarrow> [] | Some l \<Rightarrow> l)"

definition choose_button :: "bool option \<Rightarrow> bool option \<Rightarrow> bool option \<Rightarrow> button" where
  "choose_button assigned_me pending_me drop_me =
     (if truthy drop_me then DropPendingApproval
      else if truthy assigned_me then RequestToDrop
      else if truthy pending_me then CancelClaimRequest
      else RequestShift)"

definition render_card ::
  "(string \<Rightarrow> bool) \<Rightarrow> string option \<Rightarrow> string option \<Rightarrow> Shift \<Rightarrow> js_error + card" where
  "render_card parses role username shift =
     bind_err (isAssignedToMe username shift) (\<lambda>assigned_me.
     bind_err (isPendingForMe username shift) (\<lambda>pending_me.
     bind_err (isDropRequested username shift) (\<lambda>drop_me.
     bind_err (format_date parses (start_time shift)) (\<lambda>day.
     bind_err (format_date parses (start_time shift)) (\<lambda>from_hour.
     bind_err (format_date parses (end_time shift)) (\<lambda>to_hour.
     bind_err (unassigned_label shift) (\<lambda>lbl.
       Inr \<lparr> stripe = (if truthy assigned_me then ''bg-green-500''
                       else if truthy pending_me then ''bg-amber-400'' else ''bg-blue-500''),
             roster = roster_names shift,
             unassigned = lbl,
             employee_button =
               (if role = Some ''employee''
                then Some (choose_button assigned_me pending_me drop_me) else None) \<rparr>)))))))"


text \<open>The employee's button of a rendered card; \<open>None\<close> when rendering threw or shows none.\<close>

definition offered :: "js_error + card \<Rightarrow> button option" where
  "offered r = (case r of Inl e \<Rightarrow> None | Inr c \<Rightarrow> employee_button c)"

section \<open>The server's RequestArbiter\<close>

text \<open>
  The dashboard only calls the server's endpoints (\<^verbatim>\<open>/request\<close>, \<^verbatim>\<open>/drop\<close>,
  \<^verbatim>\<open>/request-drop\<close>, \<^verbatim>\<open>/review\<close>, \<^verbatim>\<open>/review-drop\<close>); the server that decides them
  is a separate backend. The definitions of this section follow the specification's
  sections 3, 4.1, 4.2 and 7.
\<close>

text \<open>
  Modelled from the spec: the server's shift record (section 3), with its three
  membership sets of user identifiers.
\<close>

record ShiftRec =
  rec_id :: string
  assigned :: "string set"
  pending :: "string set"
  drop_reqs :: "string set"

datatype role = Manager | Employee

datatype action =
    RequestClaim | CancelClaim | ApproveClaim | DenyClaim
  | RequestDrop | ApproveDrop | DenyDrop

datatype arbiter_error = InvalidTransition | Forbidden

text \<open>
  Modelled from the spec: the invariant of section 3, a user identifier is in at most one
  of the three sets of a shift. \<open>in_at_most_one\<close> says it of one user, in the
  specification's words; \<open>invariant\<close> says it of all users at once, as the three sets
  being disjoint in pairs.
\<close>

definition in_at_most_one :: "string \<Rightarrow> ShiftRec \<Rightarrow> bool" where
  "in_at_most_one u S =
     (\<not> (u \<in> assigned S \<and> u \<in> pending S) \<and> \<not> (u \<in> assigned S \<and> u \<in> drop_reqs S)
      \<and> \<not> (u \<in> pending S \<and> u \<in> drop_reqs S))"

definition invariant :: "ShiftRec \<Rightarrow> bool" where
  "invariant S =
     (assigned S \<inter> pending S = {} \<and> assigned S \<inter> drop_reqs S = {}
      \<and> pending S \<inter> drop_reqs S = {})"

text \<open>
  Modelled from the spec: the transition table of section 4.2, its columns
  "Precondition" and "Resulting state", one equation per row. \<open>None\<close> is a request the
  table does not allow in the shift's state.
\<close>

fun transition :: "action \<Rightarrow> string \<Rightarrow> ShiftRec \<Rightarrow> ShiftRec option" where
  "transition RequestClaim u S =
     (if u \<notin> assigned S \<and> u \<notin> pending S \<and> u \<notin> drop_reqs S
      then Some (S\<lparr>pending := insert u (pending S)\<rparr>) else None)"
| "transition CancelClaim u S =
     (if u \<in> pending S then Some (S\<lparr>pending := pending S - {u}\<rparr>) else None)"
| "transition ApproveClaim u S =
     (if u \<in> pending S
      then Some (S\<lparr>pending := pending S - {u}, assigned := insert u (assigned S)\<rparr>) else None)"
| "transition DenyClaim u S =
     (if u \<in> pending S then Some (S\<lparr>pending := pending S - {u}\<rparr>) else None)"
| "transition RequestDrop u S =
     (if u \<in> assigned S
      then Some (S\<lparr>assigned := assigned S - {u}, drop_reqs := insert u (drop_reqs S)\<rparr>) else None)"
| "transition ApproveDrop u S =
     (if u \<in> drop_reqs S then Some (S\<lparr>drop_reqs := drop_reqs S - {u}\<rparr>) else None)"
| "transition DenyDrop u S =
     (if u \<in> drop_reqs S
      then Some (S\<lparr>drop_reqs := drop_reqs S - {u}, assigned := insert u (assigned S)\<rparr>) else None)"

text \<open>
  Modelled from the spec: the table's first column, the membership state of the user from
  which each action is listed, and what it means for a user to be in such a state.
\<close>

datatype membership = NoMembership | Pending | Assigned | DropRequested

fun listed_state :: "action \<Rightarrow> membership" where
  "listed_state RequestClaim = NoMembership"
| "listed_state CancelClaim = Pending"
| "listed_state ApproveClaim = Pending"
| "listed_state DenyClaim = Pending"
| "listed_state RequestDrop = Assigned"
| "listed_state ApproveDrop = DropRequested"
| "listed_state DenyDrop = DropRequested"

fun in_state :: "membership \<Rightarrow> string \<Rightarrow> ShiftRec \<Rightarrow> bool" where
  "in_state NoMembership u S = (u \<notin> assigned S \<and> u \<notin> pending S \<and> u \<notin> drop_reqs S)"
| "in_state Pending u S = (u \<in> pending S)"
| "in_state Assigned u S = (u \<in> assigned S)"
| "in_state DropRequested u S = (u \<in> drop_reqs S)"

text \<open>
  Modelled from the spec: who may ask for an action (the table's "Action" column and the
  sentence after it): the claim and drop requests and the cancellation are an employee's,
  on the employee's own membership; the reviews are a manager's.
\<close>

fun permitted :: "role \<Rightarrow> string \<Rightarrow> action \<Rightarrow> string \<Rightarrow> bool" where
  "permitted r actor RequestClaim u = (r = Employee \<and> actor = u)"
| "permitted r actor CancelClaim u = (r = Employee \<and> actor = u)"
| "permitted r actor RequestDrop u = (r = Employee \<and> actor = u)"
| "permitted r actor ApproveClaim u = (r = Manager)"
| "permitted r actor DenyClaim u = (r = Manager)"
| "permitted r actor ApproveDrop u = (r = Manager)"
| "permitted r actor DenyDrop u = (r = Manager)"

text \<open>
  Modelled from the spec: the arbiter's decision on one request, by the actor \<open>actor\<close>
  of role \<open>r\<close>, for the action \<open>act\<close> on the membership of user \<open>u\<close>. The
  specification has every action attempted from a state not listed for it signal
  InvalidTransition, so the state is looked at first and the role after it.
\<close>

definition arbiter :: "role \<Rightarrow> string \<Rightarrow> action \<Rightarrow> string \<Rightarrow> ShiftRec \<Rightarrow> arbiter_error + ShiftRec" where
  "arbiter r actor act u S =
     (case transition act u S of
        None \<Rightarrow> Inl InvalidTransition
      | Some S' \<Rightarrow> if permitted r actor act u then Inr S' else Inl Forbidden)"

text \<open>
  Modelled from the spec: the store's handling of a request on one shift (sections 2, 4.1
  and 7). A rejected request is answered with its error, changes nothing and broadcasts
  nothing; an accepted one stores the new state and emits one event carrying it.
\<close>

datatype ChangeEvent = ShiftCreated ShiftRec | ShiftUpdated ShiftRec | ShiftDeleted string

record outcome =
  response :: "arbiter_error + ShiftRec"
  stored :: ShiftRec
  broadcast :: "ChangeEvent list"

definition submit :: "role \<Rightarrow> string \<Rightarrow> action \<Rightarrow> string \<Rightarrow> ShiftRec \<Rightarrow> outcome" where
  "submit r actor act u S =
     (case arbiter r actor act u S of
        Inl e \<Rightarrow> \<lparr> response = Inl e, stored = S, broadcast = [] \<rparr>
      | Inr S' \<Rightarrow> \<lparr> response = Inr S', stored = S', broadcast = [ShiftUpdated S'] \<rparr>)"

text \<open>
  Modelled from the spec: a sequence of requests on one shift (section 8), each handled by
  the store in turn on the state the last one left.
\<close>

record request =
  by_role :: role
  by_user :: string
  wanted :: action
  about :: string

definition handle :: "request \<Rightarrow> ShiftRec \<Rightarrow> ShiftRec" where
  "handle q S = stored (submit (by_role q) (by_user q) (wanted q) (about q) S)"

definition run_requests :: "request list \<Rightarrow> ShiftRec \<Rightarrow> ShiftRec" where
  "run_requests qs S = fold handle qs S"

section \<open>Example data\<close>

definition shift_a :: Shift where
  "shift_a = \<lparr> ident = Some ''s1'', title = ''Morning'', start_time = ''2024-05-01T08:00'',
     end_time = ''2024-05-01T12:00'', assigned_employees = Some [], pending_employees = Some [],
     drop_requests = Some [] \<rparr>"

definition shift_a' :: Shift where
  "shift_a' = shift_a \<lparr> title := ''Morning (moved)'', assigned_employees := Some [''alice''] \<rparr>"

definition shift_b :: Shift where
  "shift_b = \<lparr> ident = Some ''s2'', title = ''Evening'', start_time = ''2024-05-01T16:00'',
     end_time = ''2024-05-01T20:00'', assigned_employees = Some [''bob''], pending_employees = None,
     drop_requests = None \<rparr>"

text \<open>
  A token as the server issues it: three base64url segments, the second of which is
  \<^verbatim>\<open>{"username":"bob","role":"employee"}\<close>. \<open>sample_jwtDecode\<close> gives what
  \<^verbatim>\<open>jwtDecode\<close> gives on this token, and throws on every other string, as \<^verbatim>\<open>jwtDecode\<close>
  does on a string that is not a token.
\<close>

definition sample_token :: string where
  "sample_token =
     ''eyJhbGciOiJIUzI1NiIsInR5cCI6IkpXVCJ9.eyJ1c2VybmFtZSI6ImJvYiIsInJvbGUiOiJlbXBsb3llZSJ9.c2ln''"

definition sample_jwtDecode :: "string \<Rightarrow> jwt_payload option" where
  "sample_jwtDecode t =
     (if t = sample_token
      then Some \<lparr> jwt_role = Some ''employee'', jwt_username = Some ''bob'' \<rparr> else None)"

text \<open>
  The timestamps of the shifts above parse to valid dates in JavaScript; \<open>sample_parses\<close>
  accepts them and nothing else.
\<close>

definition sample_parses :: "string \<Rightarrow> bool" where
  "sample_parses s =
     (s = ''2024-05-01T08:00'' \<or> s = ''2024-05-01T12:00'' \<or> s = ''2024-05-01T16:00''
      \<or> s = ''2024-05-01T20:00'')"

definition rec0 :: ShiftRec where
  "rec0 = \<lparr> rec_id = ''s1'', assigned = {}, pending = {}, drop_reqs = {} \<rparr>"

definition rec_alice :: ShiftRec where
  "rec_alice = \<lparr> rec_id = ''s1'', assigned = {''alice''}, pending = {''bob''}, drop_reqs = {} \<rparr>"

definition req :: "role \<Rightarrow> string \<Rightarrow> action \<Rightarrow> string \<Rightarrow> request" where
  "req r actor act u = \<lparr> by_role = r, by_user = actor, wanted = act, about = u \<rparr>"

section \<open>The projection's events\<close>

lemma shift_a_neq_b: "shift_a \<noteq> shift_b" "ident shift_a \<noteq> ident shift_b"
  by (simp_all add: shift_a_def shift_b_def)

lemma shift_a_neq_a': "shift_a \<noteq> shift_a'" "ident shift_a' = ident shift_a"
  by (simp_all add: shift_a_def shift_a'_def)

text \<open>
  C10. A NEW_SHIFT event leaves every held shift where it is and as it is, and puts
  exactly the event's shift after all of them: the list is one longer, every old position
  holds what it held, and the new last position holds the event's shift.
\<close>

theorem new_shift_appends:
  "length (ws_onmessage (NEW_SHIFT sh) prev) = Suc (length prev)
   \<and> (\<forall>i < length prev. ws_onmessage (NEW_SHIFT sh) prev ! i = prev ! i)
   \<and> ws_onmessage (NEW_SHIFT sh) prev ! length prev = sh
   \<and> take (length prev) (ws_onmessage (NEW_SHIFT sh) prev) = prev
   \<and> drop (length prev) (ws_onmessage (NEW_SHIFT sh) prev) = [sh]"
  by (simp add: nth_append)

theorem new_shift_appends_witness:
  "length (ws_onmessage (NEW_SHIFT shift_b) [shift_a]) = 2
   \<and> ws_onmessage (NEW_SHIFT shift_b) [shift_a] ! 0 = shift_a
   \<and> ws_onmessage (NEW_SHIFT shift_b) [shift_a] ! 1 = shift_b"
  using new_shift_appends [of shift_b "[shift_a]"] by simp

text \<open>
  C5. A DELETE_SHIFT event carrying id \<open>d\<close> removes every held shift whose id is \<open>d\<close>;
  every held shift with another id stays, as often as it was held and in the order it was
  held, and nothing else appears.
\<close>

theorem delete_shift_removes_by_id:
  "(\<forall>s \<in> set (ws_onmessage (DELETE_SHIFT d) prev). ident s \<noteq> d)
   \<and> (\<forall>s. ident s \<noteq> d \<longrightarrow>
          count_list (ws_onmessage (DELETE_SHIFT d) prev) s = count_list prev s)
   \<and> (\<forall>s \<in> set prev. ident s \<noteq> d \<longrightarrow> s \<in> set (ws_onmessage (DELETE_SHIFT d) prev))
   \<and> subseq (ws_onmessage (DELETE_SHIFT d) prev) prev
   \<and> held d (ws_onmessage (DELETE_SHIFT d) prev) = 0"
proof -
  have cnt: "ident s \<noteq> d \<Longrightarrow> count_list (filter (\<lambda>s. ident s \<noteq> d) prev) s = count_list prev s"
    for s
    by (induction prev) auto
  have none: "filter (\<lambda>s. ident s = d) (filter (\<lambda>s. ident s \<noteq> d) prev) = []"
    by (induction prev) auto
  show ?thesis
    using cnt none by (simp add: held_def)
qed

theorem delete_shift_removes_by_id_witness:
  "ws_onmessage (DELETE_SHIFT (Some ''s1'')) [shift_a, shift_b, shift_a'] = [shift_b]
   \<and> held (Some ''s1'') (ws_onmessage (DELETE_SHIFT (Some ''s1'')) [shift_a, shift_b, shift_a']) = 0
   \<and> shift_b \<in> set (ws_onmessage (DELETE_SHIFT (Some ''s1'')) [shift_a, shift_b, shift_a'])"
proof -
  have other: "ident shift_b \<noteq> Some ''s1''"
    by (simp add: shift_b_def)
  have here: "shift_b \<in> set [shift_a, shift_b, shift_a']"
    by simp
  have "shift_b \<in> set (ws_onmessage (DELETE_SHIFT (Some ''s1'')) [shift_a, shift_b, shift_a'])"
    and "held (Some ''s1'') (ws_onmessage (DELETE_SHIFT (Some ''s1'')) [shift_a, shift_b, shift_a']) = 0"
    using delete_shift_removes_by_id [of "Some ''s1''" "[shift_a, shift_b, shift_a']"] other here
    by blast+
  moreover have "ws_onmessage (DELETE_SHIFT (Some ''s1'')) [shift_a, shift_b, shift_a'] = [shift_b]"
    by (simp add: shift_a_def shift_a'_def shift_b_def)
  ultimately show ?thesis by simp
qed

text \<open>
  C1, as amended. An UPDATE_SHIFT and a DELETE_SHIFT event (and a message with an unknown
  action) are idempotent: applied twice they give the state they give applied once. A
  NEW_SHIFT event is appended each time it is applied: applied twice, it gives the state
  it gives applied once with one more copy of its shift at the end.
\<close>

theorem apply_event_twice:
  "ws_onmessage (UPDATE_SHIFT sh) (ws_onmessage (UPDATE_SHIFT sh) prev)
     = ws_onmessage (UPDATE_SHIFT sh) prev
   \<and> ws_onmessage (DELETE_SHIFT d) (ws_onmessage (DELETE_SHIFT d) prev)
     = ws_onmessage (DELETE_SHIFT d) prev
   \<and> ws_onmessage (OTHER_ACTION a) (ws_onmessage (OTHER_ACTION a) prev)
     = ws_onmessage (OTHER_ACTION a) prev
   \<and> ws_onmessage (NEW_SHIFT sh) (ws_onmessage (NEW_SHIFT sh) prev)
     = ws_onmessage (NEW_SHIFT sh) prev @ [sh]"
  by (simp add: comp_def)

text \<open>
  The claim as the specification states it fails for NEW_SHIFT: on the empty projection,
  the event applied once leaves one shift and applied twice leaves two.
\<close>

theorem new_shift_not_idempotent:
  "ws_onmessage (NEW_SHIFT shift_a) (ws_onmessage (NEW_SHIFT shift_a) [])
     \<noteq> ws_onmessage (NEW_SHIFT shift_a) []
   \<and> ws_onmessage (NEW_SHIFT shift_a) [] = [shift_a]
   \<and> ws_onmessage (NEW_SHIFT shift_a) (ws_onmessage (NEW_SHIFT shift_a) []) = [shift_a, shift_a]"
  by simp

text \<open>
  C3, as amended. A NEW_SHIFT event appends its shift without looking at the ids: the
  projection then holds the event's shift, and holds one more entry with that id than
  before (so a second entry when one was held). An UPDATE_SHIFT event puts its shift in
  the place of every held shift with that id and adds no entry: the list keeps its
  length, each position holds the event's shift when it held that id and what it held
  otherwise, and when no held shift has that id the projection is unchanged.
\<close>

theorem new_appends_update_replaces:
  "sh \<in> set (ws_onmessage (NEW_SHIFT sh) prev)
   \<and> held (ident sh) (ws_onmessage (NEW_SHIFT sh) prev) = Suc (held (ident sh) prev)
   \<and> length (ws_onmessage (UPDATE_SHIFT sh) prev) = length prev
   \<and> (\<forall>i < length prev. ws_onmessage (UPDATE_SHIFT sh) prev ! i
         = (if ident (prev ! i) = ident sh then sh else prev ! i))
   \<and> held (ident sh) (ws_onmessage (UPDATE_SHIFT sh) prev) = held (ident sh) prev
   \<and> (held (ident sh) prev = 0 \<longrightarrow> ws_onmessage (UPDATE_SHIFT sh) prev = prev)"
proof -
  have same: "held (ident sh) (map (\<lambda>s. if ident s = ident sh then sh else s) prev)
                = held (ident sh) prev"
    unfolding held_def by (induction prev) auto
  have unchanged: "held (ident sh) prev = 0 \<Longrightarrow>
                     map (\<lambda>s. if ident s = ident sh then sh else s) prev = prev"
    unfolding held_def by (induction prev) (auto split: if_splits)
  show ?thesis
    using same unchanged by (simp add: held_def)
qed

theorem new_appends_update_replaces_witness:
  "held (ident shift_a') [shift_b] = 0
   \<and> ws_onmessage (UPDATE_SHIFT shift_a') [shift_b] = [shift_b]
   \<and> ws_onmessage (UPDATE_SHIFT shift_a') [shift_a, shift_b] ! 0 = shift_a'
   \<and> ws_onmessage (UPDATE_SHIFT shift_a') [shift_a, shift_b] ! 1 = shift_b"
proof -
  have none: "held (ident shift_a') [shift_b] = 0"
    by (simp add: held_def shift_a_def shift_a'_def shift_b_def)
  have "ws_onmessage (UPDATE_SHIFT shift_a') [shift_b] = [shift_b]"
    using new_appends_update_replaces [of shift_a' "[shift_b]"] none by blast
  moreover have "ws_onmessage (UPDATE_SHIFT shift_a') [shift_a, shift_b] ! 0 = shift_a'"
    using new_appends_update_replaces [of shift_a' "[shift_a, shift_b]"]
    by (simp add: shift_a_def shift_a'_def)
  moreover have "ws_onmessage (UPDATE_SHIFT shift_a') [shift_a, shift_b] ! 1 = shift_b"
    using new_appends_update_replaces [of shift_a' "[shift_a, shift_b]"]
    by (simp add: shift_a_def shift_a'_def shift_b_def)
  ultimately show ?thesis using none by simp
qed

text \<open>
  The claim as the specification states it fails on both sides. A NEW_SHIFT event whose
  id is already held does not replace the held shift: the old snapshot stays and the
  projection holds two entries with that id. An UPDATE_SHIFT event whose id is not held
  is not inserted: the projection stays empty.
\<close>

theorem upsert_counterexample:
  "ws_onmessage (NEW_SHIFT shift_a') [shift_a] = [shift_a, shift_a']
   \<and> held (Some ''s1'') (ws_onmessage (NEW_SHIFT shift_a') [shift_a]) = 2
   \<and> ws_onmessage (NEW_SHIFT shift_a') [shift_a] \<noteq> [shift_a']
   \<and> ws_onmessage (UPDATE_SHIFT shift_a) [] = []
   \<and> shift_a \<notin> set (ws_onmessage (UPDATE_SHIFT shift_a) [])"
  by (simp add: held_def shift_a_def shift_a'_def)

section \<open>Connection setup\<close>

lemma client_run_append: "client_run (xs @ ys) st = client_run ys (client_run xs st)"
  by (simp add: client_run_def)

lemma client_run_snapshot: "client_run (SnapshotResponse data # evs) st = client_run evs data"
  by (simp add: client_run_def)

text \<open>
  C7, as amended. With a token that decodes, the setup first issues the GET of the whole
  collection and only then opens the socket. The response of the GET replaces the
  projection: whatever events were applied before it arrives are overwritten by the
  snapshot, and the state is the snapshot with the events that arrive after it applied
  in turn.
\<close>

theorem setup_fetches_then_opens_socket:
  assumes "t \<noteq> []" and "jwtDecode t = Some c"
  shows "useEffect_setup jwtDecode (Some t)
           = Inr [HttpGet ''http://localhost:8000/shifts/'', WsOpen ''ws://localhost:8000/ws'']
         \<and> client_run (before @ SnapshotResponse data # later) st = client_run later data"
proof
  show "useEffect_setup jwtDecode (Some t)
          = Inr [HttpGet ''http://localhost:8000/shifts/'', WsOpen ''ws://localhost:8000/ws'']"
    using assms
    by (simp add: useEffect_setup_def render_identity_def decode_claim_def bind_err_def)
next
  have "client_run (before @ SnapshotResponse data # later) st
          = client_run (SnapshotResponse data # later) (client_run before st)"
    by (rule client_run_append)
  also have "\<dots> = client_run later data"
    by (rule client_run_snapshot)
  finally show "client_run (before @ SnapshotResponse data # later) st = client_run later data" .
qed

theorem setup_fetches_then_opens_socket_witness:
  "sample_token \<noteq> [] \<and> sample_jwtDecode sample_token \<noteq> None
   \<and> useEffect_setup sample_jwtDecode (Some sample_token)
     = Inr [HttpGet ''http://localhost:8000/shifts/'', WsOpen ''ws://localhost:8000/ws'']
   \<and> client_run ([WsMessage (NEW_SHIFT shift_b)] @ SnapshotResponse [shift_a] # [WsMessage (DELETE_SHIFT (Some ''s9''))]) []
     = [shift_a]"
proof -
  have t: "sample_token \<noteq> []"
    by (simp add: sample_token_def)
  have d: "sample_jwtDecode sample_token
             = Some \<lparr> jwt_role = Some ''employee'', jwt_username = Some ''bob'' \<rparr>"
    by (simp add: sample_jwtDecode_def)
  have later: "client_run [WsMessage (DELETE_SHIFT (Some ''s9''))] [shift_a] = [shift_a]"
    by (simp add: client_run_def shift_a_def)
  have "useEffect_setup sample_jwtDecode (Some sample_token)
           = Inr [HttpGet ''http://localhost:8000/shifts/'', WsOpen ''ws://localhost:8000/ws'']
         \<and> client_run ([WsMessage (NEW_SHIFT shift_b)] @ SnapshotResponse [shift_a]
               # [WsMessage (DELETE_SHIFT (Some ''s9''))]) []
           = client_run [WsMessage (DELETE_SHIFT (Some ''s9''))] [shift_a]"
    using t d
    by (rule setup_fetches_then_opens_socket [where jwtDecode = sample_jwtDecode
          and t = sample_token])
  then show ?thesis
    using later t d by simp
qed

text \<open>
  The claim as the specification states it fails: with a token that decodes, the socket
  is opened after the GET was issued, not before, and an event that reaches the
  projection before the snapshot is not merged. Here the shift of a NEW_SHIFT event is
  gone once the snapshot, taken before the shift was published, arrives.
\<close>

theorem snapshot_overwrites_racing_event:
  "useEffect_setup sample_jwtDecode (Some sample_token)
     = Inr [HttpGet ''http://localhost:8000/shifts/'', WsOpen ''ws://localhost:8000/ws'']
   \<and> client_run [WsMessage (NEW_SHIFT shift_b)] [] = [shift_b]
   \<and> client_run [WsMessage (NEW_SHIFT shift_b), SnapshotResponse [shift_a]] [] = [shift_a]
   \<and> shift_b \<notin> set (client_run [WsMessage (NEW_SHIFT shift_b), SnapshotResponse [shift_a]] [])"
proof -
  have "sample_token \<noteq> []"
    by (simp add: sample_token_def)
  then have "useEffect_setup sample_jwtDecode (Some sample_token)
     = Inr [HttpGet ''http://localhost:8000/shifts/'', WsOpen ''ws://localhost:8000/ws'']"
    by (simp add: useEffect_setup_def render_identity_def decode_claim_def bind_err_def
        sample_jwtDecode_def)
  then show ?thesis
    using shift_a_neq_b by (simp add: client_run_def)
qed

text \<open>
  A string that is not a token makes the component throw while it renders, so the hook
  never runs and nothing is issued; without a token the hook only navigates to the login
  page.
\<close>

lemma setup_without_usable_token:
  "useEffect_setup sample_jwtDecode (Some ''tok'') = Inl InvalidTokenError"
  "useEffect_setup jwtDecode None = Inr [Navigate ''/login'']"
  "useEffect_setup jwtDecode (Some []) = Inr [Navigate ''/login'']"
  by (simp_all add: useEffect_setup_def render_identity_def decode_claim_def bind_err_def
      sample_jwtDecode_def sample_token_def)

section \<open>Absent membership fields\<close>


lemma opt_includes_total: "opt_includes a x = Inr (map_option (\<lambda>l. x \<in> set l) a)"
  by (cases a) (simp_all add: opt_includes_def get_includes_def)

lemma unassigned_label_total:
  "unassigned_label shift = Inr (case assigned_employees shift of None \<Rightarrow> True | Some l \<Rightarrow> l = [])"
  by (cases "assigned_employees shift") (simp_all add: unassigned_label_def get_length_def bind_err_def)

lemma render_card_total:
  "render_card parses role username shift =
     (if parses (start_time shift) \<and> parses (end_time shift) then
        Inr \<lparr> stripe =
                (if truthy (map_option (\<lambda>l. or_empty username \<in> set l) (assigned_employees shift))
                 then ''bg-green-500''
                 else if truthy (map_option (\<lambda>l. or_empty username \<in> set l) (pending_employees shift))
                 then ''bg-amber-400'' else ''bg-blue-500''),
              roster = roster_names shift,
              unassigned = (case assigned_employees shift of None \<Rightarrow> True | Some l \<Rightarrow> l = []),
              employee_button =
                (if role = Some ''employee''
                 then Some (choose_button
                        (map_option (\<lambda>l. or_empty username \<in> set l) (assigned_employees shift))
                        (map_option (\<lambda>l. or_empty username \<in> set l) (pending_employees shift))
                        (map_option (\<lambda>l. or_empty username \<in> set l) (drop_requests shift)))
                 else None) \<rparr>
      else Inl RangeError)"
  by (simp add: render_card_def isAssignedToMe_def isPendingForMe_def isDropRequested_def
      opt_includes_total unassigned_label_total format_date_def bind_err_def)




text \<open>
  The buttons are a first-match chain: a user held in two present fields gets the first
  of them in the chain's order (drop request, assignment, pending claim). And a record
  whose start time does not parse shows no card at all, whatever its membership fields.
\<close>

lemma first_match_and_bad_date:
  "offered (render_card sample_parses (Some ''employee'') (Some ''bob'')
       (shift_b\<lparr>pending_employees := Some [''bob'']\<rparr>)) = Some RequestToDrop"
  "render_card sample_parses (Some ''employee'') (Some ''bob'') (shift_b\<lparr>start_time := []\<rparr>)
     = Inl RangeError"
  by (simp_all add: render_card_total offered_def choose_button_def truthy_def or_empty_def
      shift_b_def sample_parses_def)

section \<open>The arbiter's transitions\<close>

lemma invariant_iff: "invariant S \<longleftrightarrow> (\<forall>u. in_at_most_one u S)"
  unfolding invariant_def in_at_most_one_def by blast

lemma transition_invariant:
  assumes "invariant S" and "transition act u S = Some S'"
  shows "invariant S'"
proof (cases act)
  case RequestClaim
  with assms show ?thesis
    by (auto simp: invariant_def split: if_splits)
next
  case CancelClaim
  with assms show ?thesis
    by (auto simp: invariant_def split: if_splits)
next
  case ApproveClaim
  with assms show ?thesis
    by (auto simp: invariant_def split: if_splits)
next
  case DenyClaim
  with assms show ?thesis
    by (auto simp: invariant_def split: if_splits)
next
  case RequestDrop
  with assms show ?thesis
    by (auto simp: invariant_def split: if_splits)
next
  case ApproveDrop
  with assms show ?thesis
    by (auto simp: invariant_def split: if_splits)
next
  case DenyDrop
  with assms show ?thesis
    by (auto simp: invariant_def split: if_splits)
qed

lemma stored_cases:
  "stored (submit r actor act u S) = S
   \<or> transition act u S = Some (stored (submit r actor act u S))"
  by (cases "transition act u S") (simp_all add: submit_def arbiter_def)

lemma handle_invariant:
  assumes "invariant S"
  shows "invariant (handle q S)"
proof -
  let ?S' = "stored (submit (by_role q) (by_user q) (wanted q) (about q) S)"
  have "?S' = S \<or> transition (wanted q) (about q) S = Some ?S'"
    by (rule stored_cases)
  then have "invariant ?S'"
  proof
    assume "?S' = S"
    with assms show ?thesis by simp
  next
    assume "transition (wanted q) (about q) S = Some ?S'"
    with assms show ?thesis by (rule transition_invariant)
  qed
  then show ?thesis by (simp add: handle_def)
qed

lemma run_requests_invariant: "invariant S \<Longrightarrow> invariant (run_requests qs S)"
proof (induction qs arbitrary: S)
  case Nil
  then show ?case by (simp add: run_requests_def)
next
  case (Cons q qs)
  from Cons.prems have "invariant (handle q S)"
    by (rule handle_invariant)
  then have "invariant (run_requests qs (handle q S))"
    by (rule Cons.IH)
  then show ?case by (simp add: run_requests_def)
qed

lemma rec_alice_invariant: "invariant rec_alice"
  by (simp add: invariant_def rec_alice_def)

text \<open>
  C2. From a shift whose three membership sets hold each user at most once, every state
  reached by a sequence of requests, each decided by the arbiter's transition table (a
  rejected one leaving the shift as it is), holds each user in at most one of the three
  sets. The states reached are those after the first \<open>n\<close> requests, for every \<open>n\<close>.
\<close>

theorem requests_keep_invariant:
  assumes "\<forall>u. in_at_most_one u S"
  shows "\<forall>u. in_at_most_one u (run_requests (take n qs) S)"
proof -
  from assms have "invariant S"
    by (simp add: invariant_iff)
  then have "invariant (run_requests (take n qs) S)"
    by (rule run_requests_invariant)
  then show ?thesis
    by (simp add: invariant_iff)
qed

text \<open>
  Alice is assigned and bob is pending. Alice asks to drop, a manager approves bob's
  claim, bob asks for the shift once more (rejected: he is assigned), and the manager
  denies alice's drop: both end up assigned, and each user is in one set only.
\<close>

theorem requests_keep_invariant_witness:
  "(\<forall>u. in_at_most_one u rec_alice)
   \<and> (\<forall>u. in_at_most_one u
        (run_requests (take 4 [req Employee ''alice'' RequestDrop ''alice'',
            req Manager ''carol'' ApproveClaim ''bob'', req Employee ''bob'' RequestClaim ''bob'',
            req Manager ''carol'' DenyDrop ''alice'']) rec_alice))
   \<and> run_requests (take 4 [req Employee ''alice'' RequestDrop ''alice'',
            req Manager ''carol'' ApproveClaim ''bob'', req Employee ''bob'' RequestClaim ''bob'',
            req Manager ''carol'' DenyDrop ''alice'']) rec_alice
       = \<lparr> rec_id = ''s1'', assigned = {''alice'', ''bob''}, pending = {}, drop_reqs = {} \<rparr>"
proof -
  have start: "\<forall>u. in_at_most_one u rec_alice"
    by (simp add: in_at_most_one_def rec_alice_def)
  have final: "run_requests (take 4 [req Employee ''alice'' RequestDrop ''alice'',
            req Manager ''carol'' ApproveClaim ''bob'', req Employee ''bob'' RequestClaim ''bob'',
            req Manager ''carol'' DenyDrop ''alice'']) rec_alice
       = \<lparr> rec_id = ''s1'', assigned = {''alice'', ''bob''}, pending = {}, drop_reqs = {} \<rparr>"
    by (simp add: run_requests_def handle_def submit_def arbiter_def req_def rec_alice_def
        insert_commute)
  have reached: "\<forall>u. in_at_most_one u
        (run_requests (take 4 [req Employee ''alice'' RequestDrop ''alice'',
            req Manager ''carol'' ApproveClaim ''bob'', req Employee ''bob'' RequestClaim ''bob'',
            req Manager ''carol'' DenyDrop ''alice'']) rec_alice)"
    by (rule requests_keep_invariant [OF start])
  from start reached final show ?thesis
    by (intro conjI)
qed

text \<open>
  C4. When the user is not in the membership state from which the table lists the action,
  the request is answered with InvalidTransition, whoever asks; the stored shift, and so
  each of its membership sets, is the one before the request; and no event is broadcast.
\<close>

theorem unlisted_state_is_rejected:
  assumes "\<not> in_state (listed_state act) u S"
  shows "arbiter r actor act u S = Inl InvalidTransition
         \<and> response (submit r actor act u S) = Inl InvalidTransition
         \<and> stored (submit r actor act u S) = S
         \<and> assigned (stored (submit r actor act u S)) = assigned S
         \<and> pending (stored (submit r actor act u S)) = pending S
         \<and> drop_reqs (stored (submit r actor act u S)) = drop_reqs S
         \<and> broadcast (submit r actor act u S) = []"
proof -
  have "transition act u S = None"
    using assms by (cases act) simp_all
  then have "arbiter r actor act u S = Inl InvalidTransition"
    by (simp add: arbiter_def)
  then show ?thesis
    by (simp add: submit_def)
qed

text \<open>
  Bob, pending on the shift, asks for it again; and a manager reviews a drop that alice
  never asked for.
\<close>

theorem unlisted_state_is_rejected_witness:
  "\<not> in_state (listed_state RequestClaim) ''bob'' rec_alice
   \<and> response (submit Employee ''bob'' RequestClaim ''bob'' rec_alice) = Inl InvalidTransition
   \<and> stored (submit Employee ''bob'' RequestClaim ''bob'' rec_alice) = rec_alice
   \<and> broadcast (submit Employee ''bob'' RequestClaim ''bob'' rec_alice) = []
   \<and> \<not> in_state (listed_state ApproveDrop) ''alice'' rec_alice
   \<and> response (submit Manager ''carol'' ApproveDrop ''alice'' rec_alice) = Inl InvalidTransition"
proof -
  have bob: "\<not> in_state (listed_state RequestClaim) ''bob'' rec_alice"
    by (simp add: rec_alice_def)
  have alice: "\<not> in_state (listed_state ApproveDrop) ''alice'' rec_alice"
    by (simp add: rec_alice_def)
  show ?thesis
    using unlisted_state_is_rejected [OF bob, of Employee "''bob''"]
      unlisted_state_is_rejected [OF alice, of Manager "''carol''"] bob alice
    by blast
qed

text \<open>
  C6. For a shift whose sets hold each user at most once and a user \<open>u\<close> in its
  assigned_employees: the request-drop by \<open>u\<close> is accepted and takes \<open>u\<close> out of
  assigned_employees and into drop_requests; the deny-drop by a manager for \<open>u\<close> is then
  accepted and takes \<open>u\<close> out of drop_requests and back into assigned_employees; and the
  shift after the two is the shift before them.
\<close>

theorem request_drop_then_deny_restores:
  assumes "invariant S" and "u \<in> assigned S"
  shows "(let S1 = S\<lparr>assigned := assigned S - {u}, drop_reqs := insert u (drop_reqs S)\<rparr>;
              S2 = S1\<lparr>drop_reqs := drop_reqs S1 - {u}, assigned := insert u (assigned S1)\<rparr>
          in arbiter Employee u RequestDrop u S = Inr S1
             \<and> arbiter Manager m DenyDrop u S1 = Inr S2
             \<and> S2 = S)"
proof -
  let ?S1 = "S\<lparr>assigned := assigned S - {u}, drop_reqs := insert u (drop_reqs S)\<rparr>"
  let ?S2 = "?S1\<lparr>drop_reqs := drop_reqs ?S1 - {u}, assigned := insert u (assigned ?S1)\<rparr>"
  from assms have fresh: "u \<notin> drop_reqs S"
    by (auto simp: invariant_def)
  have first: "arbiter Employee u RequestDrop u S = Inr ?S1"
    using assms(2) by (simp add: arbiter_def)
  have second: "arbiter Manager m DenyDrop u ?S1 = Inr ?S2"
    by (simp add: arbiter_def)
  have back_a: "insert u (assigned S - {u}) = assigned S"
    using assms(2) by blast
  have back_d: "insert u (drop_reqs S) - {u} = drop_reqs S"
    using fresh by blast
  have restored: "?S2 = S"
    using back_a back_d by simp
  have "arbiter Employee u RequestDrop u S = Inr ?S1
      \<and> arbiter Manager m DenyDrop u ?S1 = Inr ?S2 \<and> ?S2 = S"
    by (intro conjI first second restored)
  then show ?thesis
    unfolding Let_def .
qed

text \<open>Scenario B of the specification, with bob pending beside alice.\<close>

theorem request_drop_then_deny_restores_witness:
  "invariant rec_alice \<and> ''alice'' \<in> assigned rec_alice
   \<and> arbiter Employee ''alice'' RequestDrop ''alice'' rec_alice
       = Inr \<lparr> rec_id = ''s1'', assigned = {}, pending = {''bob''}, drop_reqs = {''alice''} \<rparr>
   \<and> arbiter Manager ''carol'' DenyDrop ''alice''
        \<lparr> rec_id = ''s1'', assigned = {}, pending = {''bob''}, drop_reqs = {''alice''} \<rparr>
       = Inr rec_alice"
proof -
  let ?S1 = "rec_alice\<lparr>assigned := assigned rec_alice - {''alice''},
               drop_reqs := insert ''alice'' (drop_reqs rec_alice)\<rparr>"
  have mem: "''alice'' \<in> assigned rec_alice"
    by (simp add: rec_alice_def)
  have after: "?S1 = \<lparr> rec_id = ''s1'', assigned = {}, pending = {''bob''}, drop_reqs = {''alice''} \<rparr>"
    by (simp add: rec_alice_def)
  have both: "arbiter Employee ''alice'' RequestDrop ''alice'' rec_alice = Inr ?S1
      \<and> arbiter Manager ''carol'' DenyDrop ''alice'' ?S1 = Inr rec_alice"
    using request_drop_then_deny_restores [OF rec_alice_invariant mem, where m = "''carol''"]
    unfolding Let_def by simp
  show ?thesis
    using rec_alice_invariant mem both unfolding after by (intro conjI) simp_all
qed

end
